theory Spec2Isabelle
  imports Complex_Main "HOL-Library.Sublist"
begin

section \<open>Data model\<close>

text \<open>
  The dog records come from \<^verbatim>\<open>res.json()\<close>. The identifier and the name are strings
  that may be missing (\<open>None\<close> is JavaScript's \<^verbatim>\<open>undefined\<close>). The \<^verbatim>\<open>present\<close>
  field is kept as a JavaScript value, because the list view reads it with
  \<^verbatim>\<open>dog.present === true\<close> and the detail view by its truthiness. \<open>JFunction\<close> and
  \<open>JObject\<close> are the values that are no primitive: a function, any other object.
\<close>

datatype jsval =
    JUndefined
  | JNull
  | JBool bool
  | JNum rat
  | JStr string
  | JObject
  | JFunction


record dog =
  chipNumber :: "string option"
  name :: "string option"
  present :: jsval

text \<open>The constants of \<^verbatim>\<open>STATUS\<close> in DogStatusContext.\<close>

definition STATUS_PRESENT :: string where
  "STATUS_PRESENT = ''present''"

definition STATUS_ABSENT :: string where
  "STATUS_ABSENT = ''absent''"

definition STATUS_ALL :: string where
  "STATUS_ALL = ''all''"

text \<open>
  \<^verbatim>\<open>changedDogs\<close> is a plain object, created as \<^verbatim>\<open>{}\<close> and rebuilt by
  \<^verbatim>\<open>{...prev, [chipNumber]: newStatus}\<close>. Its own properties are a map from property
  keys to the stored status strings. A property key is a string; an \<^verbatim>\<open>undefined\<close>
  identifier used as a key is the string \<^verbatim>\<open>"undefined"\<close>.
\<close>

type_synonym overlay = "string \<rightharpoonup> string"

definition to_key :: "string option \<Rightarrow> string" where
  "to_key c = (case c of None \<Rightarrow> ''undefined'' | Some s \<Rightarrow> s)"

text \<open>
  A plain object inherits the members of \<^verbatim>\<open>Object.prototype\<close>: the operator
  \<^verbatim>\<open>in\<close> finds them, and reading one gives a function (for \<^verbatim>\<open>__proto__\<close>, the
  prototype object). An own property of the same name comes first.
\<close>

definition object_prototype_keys :: "string list" where
  "object_prototype_keys =
     [''constructor'', ''hasOwnProperty'', ''isPrototypeOf'', ''propertyIsEnumerable'',
      ''toLocaleString'', ''toString'', ''valueOf'', ''__proto__'',
      ''__defineGetter__'', ''__defineSetter__'', ''__lookupGetter__'', ''__lookupSetter__'']"

definition inherited :: "string \<Rightarrow> bool" where
  "inherited k = (k \<in> set object_prototype_keys)"

definition inherited_value :: "string \<Rightarrow> jsval" where
  "inherited_value k = (if k = ''__proto__'' then JObject else JFunction)"

text \<open>\<^verbatim>\<open>chipNumber in changedDogs\<close>.\<close>

definition js_in :: "string option \<Rightarrow> overlay \<Rightarrow> bool" where
  "js_in c changedDogs = (changedDogs (to_key c) \<noteq> None \<or> inherited (to_key c))"

text \<open>\<^verbatim>\<open>changedDogs[chipNumber]\<close>.\<close>

definition js_get :: "overlay \<Rightarrow> string option \<Rightarrow> jsval" where
  "js_get changedDogs c =
     (case changedDogs (to_key c) of
        Some s \<Rightarrow> JStr s
      | None \<Rightarrow> if inherited (to_key c) then inherited_value (to_key c) else JUndefined)"

section \<open>Effective status in the two views\<close>

text \<open>
  List view (DogList, in the \<^verbatim>\<open>filteredDogs.map\<close> callback):
  \<^verbatim>\<open>dog.chipNumber in changedDogs ? changedDogs[dog.chipNumber]
     : dog.present === true ? STATUS.PRESENT : STATUS.ABSENT\<close>
\<close>

definition list_status :: "dog \<Rightarrow> overlay \<Rightarrow> jsval" where
  "list_status d changedDogs =
     (if js_in (chipNumber d) changedDogs then js_get changedDogs (chipNumber d)
      else if present d = JBool True then JStr STATUS_PRESENT
      else JStr STATUS_ABSENT)"



section \<open>Status overlay store\<close>

text \<open>
  The provider's state, with the pending \<^verbatim>\<open>setTimeout\<close> callbacks of
  \<^verbatim>\<open>updateStatus\<close>: each runs \<^verbatim>\<open>setIsUpdating(false)\<close>, and is kept as the
  milliseconds it still has to wait.
\<close>

record store =
  changedDogs :: overlay
  isUpdating :: bool
  lastError :: "string option"
  timers :: "nat list"

definition initial_store :: store where
  "initial_store = \<lparr>changedDogs = Map.empty, isUpdating = False, lastError = None, timers = []\<rparr>"

text \<open>
  \<^verbatim>\<open>!chipNumber\<close> holds of \<^verbatim>\<open>undefined\<close> and of the empty string.
\<close>

definition falsy_id :: "string option \<Rightarrow> bool" where
  "falsy_id c = (case c of None \<Rightarrow> True | Some s \<Rightarrow> s = [])"

text \<open>
  \<^verbatim>\<open>updateStatus(chipNumber, newStatus)\<close>: the result and the store after the call.
  The statements of the \<^verbatim>\<open>try\<close> block (three state setters and \<^verbatim>\<open>setTimeout\<close>) do
  not throw, so the \<^verbatim>\<open>catch\<close> block has no branch here.
\<close>

definition updateStatus :: "string option \<Rightarrow> string \<Rightarrow> store \<Rightarrow> bool \<times> store" where
  "updateStatus c newStatus st =
     (if falsy_id c then (False, st\<lparr>lastError := Some ''Invalid dog identifier''\<rparr>)
      else (True,
            st\<lparr>isUpdating := True,
               changedDogs := (changedDogs st)(to_key c \<mapsto> newStatus),
               timers := timers st @ [300]\<rparr>))"

text \<open>
  The event loop lets \<open>t\<close> milliseconds pass: every callback that is due runs
  \<^verbatim>\<open>setIsUpdating(false)\<close>, the others wait for the rest of their delay.
\<close>

definition elapse_timers :: "nat \<Rightarrow> store \<Rightarrow> store" where
  "elapse_timers t st =
     (let due = filter (\<lambda>r. r \<le> t) (timers st);
          waiting = filter (\<lambda>r. \<not> r \<le> t) (timers st)
      in (fold (\<lambda>r s. s\<lparr>isUpdating := False\<rparr>) due st)
           \<lparr>timers := map (\<lambda>r. r - t) waiting\<rparr>)"

definition clearError :: "store \<Rightarrow> store" where
  "clearError st = st\<lparr>lastError := None\<rparr>"

section \<open>Toggle\<close>


definition newStatus :: "jsval \<Rightarrow> string" where
  "newStatus cur = (if cur = JStr STATUS_PRESENT then STATUS_ABSENT else STATUS_PRESENT)"



section \<open>Filter and search\<close>

text \<open>
  \<^verbatim>\<open>String.prototype.toLowerCase\<close> is a parameter of the filter, written \<open>lower\<close>:
  the statements below hold for every function on strings, and none is fixed as the
  model of the built-in.
\<close>

text \<open>
  \<^verbatim>\<open>hay.includes(needle)\<close>: the needle starts at some position of the hay; the empty
  needle is found in every string.
\<close>

fun str_includes :: "string \<Rightarrow> string \<Rightarrow> bool" where
  "str_includes [] needle = (needle = [])"
| "str_includes (c # cs) needle = (prefix needle (c # cs) \<or> str_includes cs needle)"

text \<open>\<^verbatim>\<open>x || ""\<close> for a string that may be \<^verbatim>\<open>undefined\<close>.\<close>

definition or_empty :: "string option \<Rightarrow> string" where
  "or_empty x = (case x of None \<Rightarrow> [] | Some s \<Rightarrow> if s = [] then [] else s)"

text \<open>The first \<^verbatim>\<open>.filter\<close> callback of \<^verbatim>\<open>filteredDogs\<close>.\<close>

definition nameFilter :: "(string \<Rightarrow> string) \<Rightarrow> string option \<Rightarrow> dog list \<Rightarrow> dog list" where
  "nameFilter lower debouncedSearchTerm ds =
     filter (\<lambda>d. let dogName = lower (or_empty (name d));
                     searchTermLower = lower (or_empty debouncedSearchTerm)
                 in str_includes dogName searchTermLower) ds"

text \<open>The second \<^verbatim>\<open>.filter\<close> callback of \<^verbatim>\<open>filteredDogs\<close>.\<close>

definition statusFilter :: "string \<Rightarrow> overlay \<Rightarrow> dog list \<Rightarrow> dog list" where
  "statusFilter filt changed ds =
     filter (\<lambda>d. if filt = STATUS_ALL then True
                 else if js_in (chipNumber d) changed
                   then js_get changed (chipNumber d) = JStr filt
                 else (let presentStatus =
                             (if present d = JBool True then STATUS_PRESENT else STATUS_ABSENT)
                       in presentStatus = filt)) ds"

definition filteredDogs ::
  "(string \<Rightarrow> string) \<Rightarrow> dog list \<Rightarrow> string option \<Rightarrow> string \<Rightarrow> overlay \<Rightarrow> dog list" where
  "filteredDogs lower ds debouncedSearchTerm filt changed =
     statusFilter filt changed (nameFilter lower debouncedSearchTerm ds)"



section \<open>Exceptions and the fetch\<close>

text \<open>A thrown \<^verbatim>\<open>Error\<close>: its \<^verbatim>\<open>name\<close> and its \<^verbatim>\<open>message\<close>.\<close>

datatype exn = Exn (exn_name: string) (exn_message: string)

text \<open>
  What \<^verbatim>\<open>await res.json()\<close> gives: a rejection (the body is not JSON), an array of
  records, or some other JSON value. What \<^verbatim>\<open>await fetch(...)\<close> gives: a rejection
  (network failure, or the abort after the timeout, named \<^verbatim>\<open>AbortError\<close>) or a
  response with its \<^verbatim>\<open>ok\<close> flag and \<^verbatim>\<open>status\<close>.
\<close>

datatype json_body = NotJson exn | JsonArray "dog list" | JsonOther

record response =
  ok :: bool
  status :: nat
  body :: json_body

datatype fetch_outcome = Rejected exn | Resolved response

text \<open>The decimal digits that a template literal writes for a status code.\<close>

fun string_of_nat :: "nat \<Rightarrow> string" where
  "string_of_nat n =
     (if n < 10 then [char_of (48 + n)]
      else string_of_nat (n div 10) @ [char_of (48 + n mod 10)])"

declare string_of_nat.simps [simp del]

text \<open>\<^verbatim>\<open>err.message || fallback\<close>.\<close>

definition message_or :: "exn \<Rightarrow> string \<Rightarrow> string" where
  "message_or err fallback = (if exn_message err = [] then fallback else exn_message err)"

section \<open>Remote snapshot loader of the list view\<close>







section \<open>Navigation resolver and loader of the detail view\<close>

text \<open>
  \<^verbatim>\<open>prevDogId\<close> and \<^verbatim>\<open>nextDogId\<close> hold \<^verbatim>\<open>null\<close> or the \<^verbatim>\<open>chipNumber\<close> field read
  from a neighbour.
\<close>

datatype nav_id = NavNull | NavId "string option"

record detail_state =
  dog :: "dog option"
  allDogs :: "dog list"
  detail_isLoading :: bool
  detail_error :: "string option"
  nextDogId :: nav_id
  prevDogId :: nav_id

definition initial_detail_state :: detail_state where
  "initial_detail_state =
     \<lparr>dog = None, allDogs = [], detail_isLoading = True, detail_error = None,
      nextDogId = NavNull, prevDogId = NavNull\<rparr>"

text \<open>\<^verbatim>\<open>Array.prototype.findIndex\<close>: the first index whose element passes, else \<open>-1\<close>.\<close>

fun findIndex_from :: "('a \<Rightarrow> bool) \<Rightarrow> int \<Rightarrow> 'a list \<Rightarrow> int" where
  "findIndex_from P k [] = - 1"
| "findIndex_from P k (x # xs) = (if P x then k else findIndex_from P (k + 1) xs)"

definition findIndex :: "('a \<Rightarrow> bool) \<Rightarrow> 'a list \<Rightarrow> int" where
  "findIndex P xs = findIndex_from P 0 xs"

text \<open>\<^verbatim>\<open>dogs[j]\<close>: \<^verbatim>\<open>undefined\<close> outside the array.\<close>

definition js_at :: "'a list \<Rightarrow> int \<Rightarrow> 'a option" where
  "js_at xs j = (if 0 \<le> j \<and> j < int (length xs) then Some (xs ! nat j) else None)"

text \<open>
  \<^verbatim>\<open>dogs[j].chipNumber\<close>: reading a property of \<^verbatim>\<open>undefined\<close> throws a
  \<^verbatim>\<open>TypeError\<close>.
\<close>

definition chipNumber_at :: "dog list \<Rightarrow> int \<Rightarrow> exn + string option" where
  "chipNumber_at ds j =
     (case js_at ds j of
        None \<Rightarrow> Inl (Exn ''TypeError'' ''Cannot read properties of undefined'')
      | Some d \<Rightarrow> Inr (chipNumber d))"

text \<open>
  \<^verbatim>\<open>setupNavigation(dogs, currentChipNumber)\<close>: the state after the call and the
  exception it throws, if any.
\<close>

definition setupNavigation :: "dog list \<Rightarrow> string option \<Rightarrow> detail_state \<Rightarrow> detail_state \<times> exn option" where
  "setupNavigation ds currentChipNumber st =
     (let dogIndex = findIndex (\<lambda>d. chipNumber d = currentChipNumber) ds;
          r1 = (if dogIndex > 0
                then (case chipNumber_at ds (dogIndex - 1) of
                        Inl e \<Rightarrow> (st, Some e)
                      | Inr c \<Rightarrow> (st\<lparr>prevDogId := NavId c\<rparr>, None))
                else (st\<lparr>prevDogId := NavNull\<rparr>, None))
      in case r1 of
           (st1, Some e) \<Rightarrow> (st1, Some e)
         | (st1, None) \<Rightarrow>
             if dogIndex < int (length ds) - 1
             then (case chipNumber_at ds (dogIndex + 1) of
                     Inl e \<Rightarrow> (st1, Some e)
                   | Inr c \<Rightarrow> (st1\<lparr>nextDogId := NavId c\<rparr>, None))
             else (st1\<lparr>nextDogId := NavNull\<rparr>, None))"

text \<open>The \<^verbatim>\<open>try\<close> block of \<^verbatim>\<open>fetchDogData\<close>.\<close>

definition fetchDogData_try :: "string option \<Rightarrow> fetch_outcome \<Rightarrow> detail_state \<Rightarrow> detail_state \<times> exn option" where
  "fetchDogData_try chip outcome st =
     (let st1 = st\<lparr>detail_isLoading := True, detail_error := None\<rparr>
      in case outcome of
           Rejected err \<Rightarrow> (st1, Some err)
         | Resolved res \<Rightarrow>
             if \<not> ok res then
               (st1, Some (Exn ''Error''
                  (''Failed to fetch dog data (Status: '' @ string_of_nat (status res) @ '')'')))
             else (case body res of
                     NotJson err \<Rightarrow> (st1, Some err)
                   | JsonOther \<Rightarrow>
                       (st1, Some (Exn ''Error'' ''Invalid data format: expected an array of dogs''))
                   | JsonArray dogsData \<Rightarrow>
                       (let st2 = st1\<lparr>allDogs := dogsData\<rparr>
                        in case find (\<lambda>d. chipNumber d = chip) dogsData of
                             None \<Rightarrow>
                               (st2, Some (Exn ''Error''
                                  (''Dog with ID '' @ to_key chip @ '' not found'')))
                           | Some foundDog \<Rightarrow>
                               setupNavigation dogsData chip (st2\<lparr>dog := Some foundDog\<rparr>))))"

definition fetchDogData :: "string option \<Rightarrow> fetch_outcome \<Rightarrow> detail_state \<Rightarrow> detail_state" where
  "fetchDogData chip outcome st =
     (if falsy_id chip
      then st\<lparr>detail_error := Some ''Invalid dog ID'', detail_isLoading := False\<rparr>
      else (case fetchDogData_try chip outcome st of
              (st1, None) \<Rightarrow> st1\<lparr>detail_isLoading := False\<rparr>
            | (st1, Some err) \<Rightarrow>
                st1\<lparr>detail_error := Some (message_or err ''Failed to load dog details''),
                    detail_isLoading := False\<rparr>))"

section \<open>Debouncer\<close>

text \<open>
  \<^verbatim>\<open>useDebounce(value, delay)\<close>. The state of the hook:
  \<^item> \<open>dvalue\<close> and \<open>ddelay\<close>, the \<^verbatim>\<open>value\<close> and \<^verbatim>\<open>delay\<close> of the last render, which
    are the effect's dependencies (\<open>None\<close> is \<^verbatim>\<open>undefined\<close>);
  \<^item> \<^verbatim>\<open>debouncedValue\<close>, which the hook returns;
  \<^item> \<open>pending\<close>, the timeouts that have been set and have neither run nor been
    cleared: the handle \<^verbatim>\<open>setTimeout\<close> returned, the milliseconds still to wait and
    the value the callback will set;
  \<^item> \<open>next_handler\<close>, the handle the next \<^verbatim>\<open>setTimeout\<close> returns;
  \<^item> \<open>to_clear\<close>, the handle held by the cleanup function that the last run of the
    effect returned, \<open>None\<close> if it returned none;
  \<^item> \<open>emitted\<close>, the log of the calls of \<^verbatim>\<open>setDebouncedValue\<close>, oldest first.
\<close>

record 'a debounce =
  dvalue :: "'a option"
  ddelay :: nat
  debouncedValue :: "'a option"
  pending :: "(nat \<times> nat \<times> 'a) list"
  next_handler :: nat
  to_clear :: "nat option"
  emitted :: "'a list"

text \<open>
  The effect body: for \<^verbatim>\<open>undefined\<close> it returns at once, with no timeout and no
  cleanup; else it sets a timeout of \<open>delay\<close> milliseconds and returns the cleanup
  that clears it.
\<close>

definition effect :: "'a debounce \<Rightarrow> 'a debounce" where
  "effect st =
     (case dvalue st of
        None \<Rightarrow> st\<lparr>to_clear := None\<rparr>
      | Some v \<Rightarrow>
          st\<lparr>pending := pending st @ [(next_handler st, ddelay st, v)],
             to_clear := Some (next_handler st),
             next_handler := next_handler st + 1\<rparr>)"

text \<open>
  The cleanup of the previous run of the effect, if it returned one:
  \<^verbatim>\<open>clearTimeout(handler)\<close>.
\<close>

definition cleanup :: "'a debounce \<Rightarrow> 'a debounce" where
  "cleanup st =
     (case to_clear st of
        None \<Rightarrow> st
      | Some h \<Rightarrow> st\<lparr>pending := filter (\<lambda>(i, r, v). i \<noteq> h) (pending st)\<rparr>)"

text \<open>The first render: \<^verbatim>\<open>useState(value)\<close>, then the effect.\<close>

definition mount :: "nat \<Rightarrow> 'a option \<Rightarrow> 'a debounce" where
  "mount delay v =
     effect \<lparr>dvalue = v, ddelay = delay, debouncedValue = v, pending = [],
             next_handler = 1, to_clear = None, emitted = []\<rparr>"

text \<open>
  A render with the input value \<open>v\<close> and the delay \<open>delay\<close>: the effect runs again
  only if one of its dependencies \<^verbatim>\<open>[value, delay]\<close> changed, after the cleanup of its
  previous run.
\<close>

definition update :: "nat \<Rightarrow> 'a option \<Rightarrow> 'a debounce \<Rightarrow> 'a debounce" where
  "update delay v st =
     (if v = dvalue st \<and> delay = ddelay st then st
      else effect ((cleanup st)\<lparr>dvalue := v, ddelay := delay\<rparr>))"

text \<open>
  \<open>t\<close> milliseconds pass with no render: the pending timeouts that are due run, the
  earliest first, each calling \<^verbatim>\<open>setDebouncedValue(value)\<close>; the others wait for the
  rest of their delay.
\<close>

definition elapse :: "nat \<Rightarrow> 'a debounce \<Rightarrow> 'a debounce" where
  "elapse t st =
     (let due = sort_key (\<lambda>(i, r, v). r) (filter (\<lambda>(i, r, v). r \<le> t) (pending st));
          waiting = filter (\<lambda>(i, r, v). \<not> r \<le> t) (pending st)
      in (fold (\<lambda>(i, r, v) s. s\<lparr>debouncedValue := Some v, emitted := emitted s @ [v]\<rparr>) due st)
           \<lparr>pending := map (\<lambda>(i, r, v). (i, r - t, v)) waiting\<rparr>)"

text \<open>
  A burst: input updates with one delay, each given with the time since the one before
  it.
\<close>

fun burst :: "nat \<Rightarrow> (nat \<times> 'a option) list \<Rightarrow> 'a debounce \<Rightarrow> 'a debounce" where
  "burst delay [] st = st"
| "burst delay ((gap, v) # us) st = burst delay us (update delay v (elapse gap st))"

section \<open>Predicates used in the statements\<close>




text \<open>
  Every pending timeout is the one that the cleanup of the last effect run will clear.
\<close>

definition pending_ok :: "'a debounce \<Rightarrow> bool" where
  "pending_ok st = (\<forall>(i, r, v)\<in>set (pending st). to_clear st = Some i)"

text \<open>Every update of a burst changes the input value.\<close>

fun changing :: "'a option \<Rightarrow> (nat \<times> 'a option) list \<Rightarrow> bool" where
  "changing v [] = True"
| "changing v ((gap, w) # us) = (w \<noteq> v \<and> changing w us)"

text \<open>The last value of a burst that starts with \<open>v\<close>.\<close>

definition final_value :: "'a option \<Rightarrow> (nat \<times> 'a option) list \<Rightarrow> 'a option" where
  "final_value v us = last (v # map snd us)"

text \<open>
  The state right after an effective update to \<open>v\<close> with the delay \<open>delay\<close>: the log
  is \<open>e\<close>, the debounced value is \<open>dv\<close>, and the only pending timeout is the one just
  set for \<open>v\<close>, with the whole delay to run, which the next cleanup clears.
\<close>

definition fresh :: "nat \<Rightarrow> 'a option \<Rightarrow> 'a list \<Rightarrow> 'a option \<Rightarrow> 'a debounce \<Rightarrow> bool" where
  "fresh delay v e dv st =
     (dvalue st = v \<and> ddelay st = delay \<and> emitted st = e \<and> debouncedValue st = dv \<and>
      (case v of
         None \<Rightarrow> pending st = []
       | Some x \<Rightarrow> \<exists>h. pending st = [(h, delay, x)] \<and> to_clear st = Some h))"

text \<open>
  An instance of the lowering for the examples: on the letters \<open>A\<close> to \<open>Z\<close> it is
  what \<^verbatim>\<open>toLowerCase\<close> computes, and the examples use no other cased character.
\<close>

definition ascii_lower_char :: "char \<Rightarrow> char" where
  "ascii_lower_char c =
     (let n = (of_char c :: nat) in if 65 \<le> n \<and> n \<le> 90 then char_of (n + 32) else c)"

definition ascii_lower :: "string \<Rightarrow> string" where
  "ascii_lower s = map ascii_lower_char s"

text \<open>
  The two dogs of the specification's end-to-end scenarios, a third one, a dog whose
  identifier is the name of an inherited member, and a dog whose \<^verbatim>\<open>present\<close> field is
  the number 1.
\<close>

definition rex :: dog where
  "rex = \<lparr>chipNumber = Some ''A1'', name = Some ''Rex'', present = JBool True\<rparr>"

definition fido :: dog where
  "fido = \<lparr>chipNumber = Some ''B2'', name = Some ''Fido'', present = JBool False\<rparr>"

definition luna :: dog where
  "luna = \<lparr>chipNumber = Some ''C3'', name = Some ''Luna'', present = JBool True\<rparr>"

definition bo :: dog where
  "bo = \<lparr>chipNumber = Some ''constructor'', name = Some ''Bo'', present = JBool True\<rparr>"


section \<open>Effective status\<close>



lemma not_inherited_B2: "\<not> inherited ''B2''"
  by (simp add: inherited_def object_prototype_keys_def)


lemma key_rex: "to_key (chipNumber rex) = ''A1''" "\<not> falsy_id (chipNumber rex)"
  by (simp_all add: to_key_def falsy_id_def rex_def)

lemma key_fido: "to_key (chipNumber fido) = ''B2''" "\<not> falsy_id (chipNumber fido)"
  by (simp_all add: to_key_def falsy_id_def fido_def)














section \<open>Toggle and the overlay store\<close>









lemma list_status_fido_initial: "list_status fido Map.empty = JStr ''absent''"
  by (simp add: list_status_def js_in_def key_fido not_inherited_B2 STATUS_ABSENT_def)
     (simp add: fido_def)






lemma fold_clear:
  "isUpdating (fold (\<lambda>r s. s\<lparr>isUpdating := False\<rparr>) rs st) = (if rs = [] then isUpdating st else False)"
  by (induction rs arbitrary: st) auto

lemma elapse_timers_isUpdating:
  "isUpdating (elapse_timers t st) =
     (if \<exists>r\<in>set (timers st). r \<le> t then False else isUpdating st)"
  by (auto simp: elapse_timers_def Let_def fold_clear filter_empty_conv)

text \<open>
  C4. \<open>updateStatus\<close> called with a missing or empty identifier returns \<open>false\<close>,
  records the validation error and leaves the overlay map as it was. Called with a
  non-empty identifier \<open>k\<close> it returns \<open>true\<close>, the overlay map has the new status at
  \<open>k\<close> (inserted or overwritten) and is otherwise unchanged, the updating flag is set,
  and a callback that clears the flag is scheduled 300 milliseconds later: once 300
  milliseconds have passed the flag is cleared, and if no earlier callback was pending
  it stays set until then.
\<close>

theorem updateStatus_contract:
  "(c = None \<or> c = Some [] \<longrightarrow>
      fst (updateStatus c s st) = False \<and>
      lastError (snd (updateStatus c s st)) = Some ''Invalid dog identifier'' \<and>
      changedDogs (snd (updateStatus c s st)) = changedDogs st) \<and>
   (k \<noteq> [] \<longrightarrow>
      fst (updateStatus (Some k) s st) = True \<and>
      changedDogs (snd (updateStatus (Some k) s st)) = (changedDogs st)(k \<mapsto> s) \<and>
      isUpdating (snd (updateStatus (Some k) s st)) \<and>
      timers (snd (updateStatus (Some k) s st)) = timers st @ [300] \<and>
      \<not> isUpdating (elapse_timers 300 (snd (updateStatus (Some k) s st))) \<and>
      (timers st = [] \<longrightarrow>
         (\<forall>t<300. isUpdating (elapse_timers t (snd (updateStatus (Some k) s st))))))"
  by (auto simp: updateStatus_def falsy_id_def to_key_def elapse_timers_isUpdating)

theorem updateStatus_contract_witness:
  "fst (updateStatus (Some '''') ''absent'' initial_store) = False \<and>
   ''A1'' \<noteq> [] \<and>
   fst (updateStatus (Some ''A1'') ''absent'' initial_store) = True \<and>
   changedDogs (snd (updateStatus (Some ''A1'') ''absent'' initial_store)) ''A1'' = Some ''absent'' \<and>
   timers initial_store = [] \<and>
   isUpdating (elapse_timers 299 (snd (updateStatus (Some ''A1'') ''absent'' initial_store))) \<and>
   \<not> isUpdating (elapse_timers 300 (snd (updateStatus (Some ''A1'') ''absent'' initial_store)))"
  using updateStatus_contract [of "Some ''''" "''absent''" initial_store "''A1''"]
  by (simp add: initial_store_def)




section \<open>Filter and search\<close>

lemma str_includes_sublist: "str_includes hay needle \<longleftrightarrow> sublist needle hay"
  by (induction hay) (auto simp: sublist_Cons_right)







lemma ascii_lower_fi: "ascii_lower ''fi'' = ''fi''"
  by code_simp

lemma ascii_lower_Rex: "ascii_lower ''Rex'' = ''rex''"
  by code_simp

lemma ascii_lower_Fido: "ascii_lower ''Fido'' = ''fido''"
  by code_simp

lemma names: "name rex = Some ''Rex''" "name fido = Some ''Fido''" "name bo = Some ''Bo''"
  by (simp_all add: rex_def fido_def bo_def)

lemma scenario_search_fi:
  "filteredDogs ascii_lower [rex, fido] (Some ''fi'') ''all'' Map.empty = [fido]"
  by (simp add: filteredDogs_def nameFilter_def statusFilter_def or_empty_def STATUS_ALL_def
        names ascii_lower_fi ascii_lower_Rex ascii_lower_Fido)

lemma scenario_no_filter:
  "filteredDogs ascii_lower [rex, fido] (Some '''') ''all'' Map.empty = [rex, fido]"
  by (simp add: filteredDogs_def nameFilter_def statusFilter_def or_empty_def STATUS_ALL_def
        ascii_lower_def str_includes_sublist)

lemma scenario_overlay_absent:
  "filteredDogs ascii_lower [rex, fido] (Some '''') ''present''
     (changedDogs (snd (updateStatus (Some ''A1'') ''absent'' initial_store))) = []"
proof -
  have m: "changedDogs (snd (updateStatus (Some ''A1'') ''absent'' initial_store)) =
      Map.empty(''A1'' \<mapsto> ''absent'')"
    by (simp add: updateStatus_def falsy_id_def to_key_def initial_store_def)
  have p: "present fido = JBool False"
    by (simp add: fido_def)
  show ?thesis
    by (simp add: m filteredDogs_def nameFilter_def statusFilter_def or_empty_def
          STATUS_ALL_def STATUS_PRESENT_def STATUS_ABSENT_def ascii_lower_def
          str_includes_sublist js_in_def js_get_def key_rex key_fido not_inherited_B2 p)
qed





text \<open>
  C8. For every search term, roster and overlay map, and whatever function lowers the
  case, filtering by name and then by the status \<open>all\<close> gives the same dogs (the same
  list, hence the same set) as filtering by the status \<open>all\<close> and then by name.
\<close>

theorem filters_commute:
  "statusFilter ''all'' m (nameFilter lower s ds) = nameFilter lower s (statusFilter ''all'' m ds) \<and>
   set (statusFilter ''all'' m (nameFilter lower s ds)) =
     set (nameFilter lower s (statusFilter ''all'' m ds))"
  by (simp add: statusFilter_def nameFilter_def STATUS_ALL_def)

theorem filters_commute_witness:
  "statusFilter ''all'' Map.empty (nameFilter ascii_lower (Some ''fi'') [rex, fido]) = [fido] \<and>
   nameFilter ascii_lower (Some ''fi'') (statusFilter ''all'' Map.empty [rex, fido]) = [fido]"
  using filters_commute [of Map.empty ascii_lower "Some ''fi''" "[rex, fido]"] scenario_search_fi
  by (simp add: filteredDogs_def)

section \<open>Remote snapshot loader\<close>









section \<open>Navigation resolver\<close>

lemma findIndex_from_none:
  "\<forall>x\<in>set xs. \<not> P x \<Longrightarrow> findIndex_from P k xs = - 1"
  by (induction xs arbitrary: k) auto

lemma findIndex_from_first:
  "i < length xs \<Longrightarrow> P (xs ! i) \<Longrightarrow> \<forall>j<i. \<not> P (xs ! j) \<Longrightarrow>
     findIndex_from P k xs = k + int i"
proof (induction xs arbitrary: k i)
  case Nil
  then show ?case by simp
next
  case (Cons x xs)
  show ?case
  proof (cases i)
    case 0
    with Cons.prems show ?thesis by simp
  next
    case (Suc n)
    with Cons.prems have "\<not> P x" by auto
    moreover have "findIndex_from P (k + 1) xs = (k + 1) + int n"
      using Cons.prems Suc by (intro Cons.IH) auto
    ultimately show ?thesis using Suc by simp
  qed
qed

lemma setupNavigation_absent:
  assumes "currentChipNumber \<notin> set (map chipNumber ds)"
  shows "setupNavigation ds currentChipNumber st =
           (st\<lparr>prevDogId := NavNull,
               nextDogId := (case ds of [] \<Rightarrow> NavNull | d # _ \<Rightarrow> NavId (chipNumber d))\<rparr>, None)"
proof -
  have "findIndex (\<lambda>d. chipNumber d = currentChipNumber) ds = - 1"
    unfolding findIndex_def using assms by (intro findIndex_from_none) auto
  then show ?thesis
    by (cases ds) (simp_all add: setupNavigation_def chipNumber_at_def js_at_def)
qed

lemma fetchDogData_absent:
  assumes "\<not> falsy_id chip" and "chip \<notin> set (map chipNumber ds)"
  shows "fetchDogData chip (Resolved \<lparr>ok = True, status = code, body = JsonArray ds\<rparr>) st =
           st\<lparr>allDogs := ds,
              detail_error := Some (''Dog with ID '' @ to_key chip @ '' not found''),
              detail_isLoading := False\<rparr>"
proof -
  have "find (\<lambda>d. chipNumber d = chip) ds = None"
    using assms(2) by (auto simp: find_None_iff)
  then show ?thesis
    using assms(1) by (simp add: fetchDogData_def fetchDogData_try_def message_or_def)
qed

lemma setupNavigation_at:
  assumes "i < length ds"
    and "chipNumber (ds ! i) = currentChipNumber"
    and "\<forall>j<i. chipNumber (ds ! j) \<noteq> currentChipNumber"
  shows "setupNavigation ds currentChipNumber st =
           (st\<lparr>prevDogId := (if i = 0 then NavNull else NavId (chipNumber (ds ! (i - 1)))),
               nextDogId := (if i = length ds - 1 then NavNull
                             else NavId (chipNumber (ds ! (i + 1))))\<rparr>,
            None)"
proof -
  have idx: "findIndex (\<lambda>d. chipNumber d = currentChipNumber) ds = int i"
    unfolding findIndex_def
    using findIndex_from_first [of i ds "\<lambda>d. chipNumber d = currentChipNumber" 0] assms
    by simp
  have prev: "chipNumber_at ds (int i - 1) = Inr (chipNumber (ds ! (i - 1)))" if "0 < i"
    using assms(1) that by (simp add: chipNumber_at_def js_at_def nat_diff_distrib')
  have nxt: "chipNumber_at ds (int i + 1) = Inr (chipNumber (ds ! (i + 1)))"
    if "i \<noteq> length ds - 1"
  proof -
    have "i + 1 < length ds" using assms(1) that by arith
    then show ?thesis by (simp add: chipNumber_at_def js_at_def nat_add_distrib)
  qed
  have lt: "int i < int (length ds) - 1 \<longleftrightarrow> i \<noteq> length ds - 1"
    using assms(1) by arith
  show ?thesis
  proof (cases "i = 0")
    case True
    then show ?thesis
      using nxt lt by (cases "i = length ds - 1") (simp_all add: setupNavigation_def idx)
  next
    case False
    then have "0 < i" by simp
    then show ?thesis
      using prev nxt lt by (cases "i = length ds - 1") (simp_all add: setupNavigation_def idx)
  qed
qed

text \<open>
  C2, as the code has it. For every roster and every identifier that is the
  \<open>chipNumber\<close> of none of its dogs, \<open>setupNavigation\<close> returns normally and yields
  previous = null, and for the empty roster it yields next = null. The loader
  \<open>fetchDogData\<close>, the only caller, does not reach \<open>setupNavigation\<close> for such an
  identifier: called with one that is not empty, it ends with the not-found error and
  leaves previous and next as they were, which is null in the initial state.
\<close>

theorem nav_absent_amended:
  assumes "currentChipNumber \<notin> set (map chipNumber ds)"
  shows "prevDogId (fst (setupNavigation ds currentChipNumber st)) = NavNull \<and>
         (ds = [] \<longrightarrow> nextDogId (fst (setupNavigation ds currentChipNumber st)) = NavNull) \<and>
         snd (setupNavigation ds currentChipNumber st) = None \<and>
         (\<not> falsy_id currentChipNumber \<longrightarrow>
            prevDogId (fetchDogData currentChipNumber
               (Resolved \<lparr>ok = True, status = code, body = JsonArray ds\<rparr>) st) = prevDogId st \<and>
            nextDogId (fetchDogData currentChipNumber
               (Resolved \<lparr>ok = True, status = code, body = JsonArray ds\<rparr>) st) = nextDogId st \<and>
            detail_error (fetchDogData currentChipNumber
               (Resolved \<lparr>ok = True, status = code, body = JsonArray ds\<rparr>) st) =
              Some (''Dog with ID '' @ to_key currentChipNumber @ '' not found''))"
  using assms by (simp add: setupNavigation_absent fetchDogData_absent)

theorem nav_absent_amended_witness:
  "Some ''Z9'' \<notin> set (map chipNumber [rex, fido]) \<and>
   \<not> falsy_id (Some ''Z9'') \<and>
   prevDogId (fst (setupNavigation [rex, fido] (Some ''Z9'') initial_detail_state)) = NavNull \<and>
   nextDogId (fst (setupNavigation [] (Some ''Z9'') initial_detail_state)) = NavNull \<and>
   prevDogId (fetchDogData (Some ''Z9'')
       (Resolved \<lparr>ok = True, status = 200, body = JsonArray [rex, fido]\<rparr>)
       initial_detail_state) = NavNull \<and>
   nextDogId (fetchDogData (Some ''Z9'')
       (Resolved \<lparr>ok = True, status = 200, body = JsonArray [rex, fido]\<rparr>)
       initial_detail_state) = NavNull \<and>
   detail_error (fetchDogData (Some ''Z9'')
       (Resolved \<lparr>ok = True, status = 200, body = JsonArray [rex, fido]\<rparr>)
       initial_detail_state) = Some ''Dog with ID Z9 not found''"
proof -
  have h: "Some ''Z9'' \<notin> set (map chipNumber [rex, fido])"
    by (simp add: rex_def fido_def)
  have e: "Some ''Z9'' \<notin> set (map chipNumber [])"
    by simp
  have f: "\<not> falsy_id (Some ''Z9'')"
    by (simp add: falsy_id_def)
  show ?thesis
    using h f nav_absent_amended [OF h, of initial_detail_state 200]
      nav_absent_amended [OF e, of initial_detail_state 200]
    by (simp add: initial_detail_state_def to_key_def)
qed

text \<open>
  The claim C2 as stated fails: in the roster of Rex (A1) and Fido (B2) the identifier
  Z9 does not occur, and \<open>setupNavigation\<close> yields next = A1.
\<close>

theorem nav_absent_counterexample:
  "Some ''Z9'' \<notin> set (map chipNumber [rex, fido]) \<and>
   nextDogId (fst (setupNavigation [rex, fido] (Some ''Z9'') initial_detail_state)) =
     NavId (Some ''A1'') \<and>
   nextDogId (fst (setupNavigation [rex, fido] (Some ''Z9'') initial_detail_state)) \<noteq> NavNull"
  by (simp add: setupNavigation_def findIndex_def chipNumber_at_def js_at_def
        initial_detail_state_def rex_def fido_def)

text \<open>
  C7. Let the identifier occur in the roster and let \<open>i\<close> be its position (the first
  one, which \<open>findIndex\<close> finds). Then \<open>setupNavigation\<close> returns normally; previous is
  null at position 0 and otherwise the \<open>chipNumber\<close> at position \<open>i - 1\<close>; next is null
  at the last position \<open>N - 1\<close> and otherwise the \<open>chipNumber\<close> at position \<open>i + 1\<close>.
\<close>

theorem nav_present:
  assumes "i < length ds"
    and "chipNumber (ds ! i) = currentChipNumber"
    and "\<forall>j<i. chipNumber (ds ! j) \<noteq> currentChipNumber"
  shows "snd (setupNavigation ds currentChipNumber st) = None \<and>
         prevDogId (fst (setupNavigation ds currentChipNumber st)) =
           (if i = 0 then NavNull else NavId (chipNumber (ds ! (i - 1)))) \<and>
         nextDogId (fst (setupNavigation ds currentChipNumber st)) =
           (if i = length ds - 1 then NavNull else NavId (chipNumber (ds ! (i + 1))))"
  by (simp add: setupNavigation_at [OF assms])

theorem nav_present_witness:
  "(1::nat) < length [rex, fido, luna] \<and>
   chipNumber ([rex, fido, luna] ! 1) = Some ''B2'' \<and>
   chipNumber ([rex, fido, luna] ! 0) \<noteq> Some ''B2'' \<and>
   prevDogId (fst (setupNavigation [rex, fido, luna] (Some ''B2'') initial_detail_state)) =
     NavId (Some ''A1'') \<and>
   nextDogId (fst (setupNavigation [rex, fido, luna] (Some ''B2'') initial_detail_state)) =
     NavId (Some ''C3'') \<and>
   prevDogId (fst (setupNavigation [rex, fido, luna] (Some ''A1'') initial_detail_state)) =
     NavNull \<and>
   nextDogId (fst (setupNavigation [rex, fido, luna] (Some ''C3'') initial_detail_state)) =
     NavNull"
proof -
  have a: "(1::nat) < length [rex, fido, luna]" by simp
  have b: "chipNumber ([rex, fido, luna] ! 1) = Some ''B2''" by (simp add: fido_def)
  have c: "\<forall>j<1::nat. chipNumber ([rex, fido, luna] ! j) \<noteq> Some ''B2''" by (simp add: rex_def)
  have a0: "(0::nat) < length [rex, fido, luna]" by simp
  have b0: "chipNumber ([rex, fido, luna] ! 0) = Some ''A1''" by (simp add: rex_def)
  have c0: "\<forall>j<0::nat. chipNumber ([rex, fido, luna] ! j) \<noteq> Some ''A1''" by simp
  have a2: "(2::nat) < length [rex, fido, luna]" by simp
  have b2: "chipNumber ([rex, fido, luna] ! 2) = Some ''C3''" by (simp add: luna_def)
  have c2: "\<forall>j<2::nat. chipNumber ([rex, fido, luna] ! j) \<noteq> Some ''C3''"
    by (simp add: rex_def fido_def less_Suc_eq numeral_2_eq_2)
  show ?thesis
    using a b c nav_present [OF a b c, of initial_detail_state]
      nav_present [OF a0 b0 c0, of initial_detail_state]
      nav_present [OF a2 b2 c2, of initial_detail_state]
    by (simp add: rex_def luna_def)
qed

section \<open>Debouncer\<close>

lemma fire_fields:
  "dvalue (fold (\<lambda>(i, r, v) s. s\<lparr>debouncedValue := Some v, emitted := emitted s @ [v]\<rparr>) xs st) = dvalue st"
  "ddelay (fold (\<lambda>(i, r, v) s. s\<lparr>debouncedValue := Some v, emitted := emitted s @ [v]\<rparr>) xs st) = ddelay st"
  "to_clear (fold (\<lambda>(i, r, v) s. s\<lparr>debouncedValue := Some v, emitted := emitted s @ [v]\<rparr>) xs st) = to_clear st"
  by (induction xs arbitrary: st) (auto split: prod.splits)

lemma mount_pending_ok: "pending_ok (mount delay v)"
  by (cases v) (simp_all add: mount_def effect_def pending_ok_def)

lemma elapse_pending_ok: "pending_ok st \<Longrightarrow> pending_ok (elapse t st)"
  by (auto simp: elapse_def pending_ok_def Let_def fire_fields)

lemma cleanup_pending: "pending_ok st \<Longrightarrow> pending (cleanup st) = []"
  by (cases "to_clear st"; cases "pending st")
     (auto simp: cleanup_def pending_ok_def filter_empty_conv)

lemma cleanup_fields:
  "emitted (cleanup st) = emitted st" "debouncedValue (cleanup st) = debouncedValue st"
  "next_handler (cleanup st) = next_handler st"
  by (simp_all add: cleanup_def split: option.splits)

lemma update_fresh:
  assumes "pending_ok st" and "v \<noteq> dvalue st \<or> delay \<noteq> ddelay st"
  shows "fresh delay v (emitted st) (debouncedValue st) (update delay v st)"
proof -
  have u: "update delay v st = effect ((cleanup st)\<lparr>dvalue := v, ddelay := delay\<rparr>)"
    using assms(2) by (auto simp: update_def)
  show ?thesis
    unfolding u using cleanup_pending [OF assms(1)]
    by (cases v) (simp_all add: effect_def fresh_def cleanup_fields)
qed

lemma elapse_fresh_short:
  assumes "fresh delay v e dv st" and "g < delay"
  shows "pending_ok (elapse g st) \<and> dvalue (elapse g st) = v \<and> ddelay (elapse g st) = delay \<and>
         emitted (elapse g st) = e \<and> debouncedValue (elapse g st) = dv"
  using assms by (cases v) (auto simp: fresh_def elapse_def pending_ok_def)

lemma burst_fresh:
  "fresh delay v e dv st \<Longrightarrow> \<forall>(g, w)\<in>set us. g < delay \<Longrightarrow> changing v us \<Longrightarrow>
     fresh delay (final_value v us) e dv (burst delay us st)"
proof (induction us arbitrary: v st)
  case Nil
  then show ?case by (simp add: final_value_def)
next
  case (Cons u us)
  obtain g w where u: "u = (g, w)" by (cases u)
  from Cons.prems u have g: "g < delay" and w: "w \<noteq> v" and rest: "changing w us"
    and gaps: "\<forall>(g, w)\<in>set us. g < delay"
    by auto
  have el: "pending_ok (elapse g st) \<and> dvalue (elapse g st) = v \<and> ddelay (elapse g st) = delay \<and>
      emitted (elapse g st) = e \<and> debouncedValue (elapse g st) = dv"
    using elapse_fresh_short [OF Cons.prems(1) g] .
  then have "fresh delay w e dv (update delay w (elapse g st))"
    using update_fresh [of "elapse g st" w delay] w by simp
  then have "fresh delay (final_value w us) e dv (burst delay us (update delay w (elapse g st)))"
    using gaps rest by (rule Cons.IH)
  then show ?case by (simp add: u final_value_def)
qed

lemma elapse_fresh:
  "fresh delay v e dv st \<Longrightarrow>
     emitted (elapse t st) =
       e @ (if delay \<le> t then (case v of None \<Rightarrow> [] | Some x \<Rightarrow> [x]) else []) \<and>
     debouncedValue (elapse t st) =
       (if delay \<le> t then (case v of None \<Rightarrow> dv | Some x \<Rightarrow> Some x) else dv)"
  by (cases v) (auto simp: fresh_def elapse_def)

lemma typing_state:
  "elapse 1000 (mount 300 (Some '''')) =
     \<lparr>dvalue = Some '''', ddelay = 300, debouncedValue = Some '''', pending = [],
      next_handler = 2, to_clear = Some 1, emitted = ['''']\<rparr>"
  by (simp add: mount_def effect_def elapse_def)

lemma delay_change_restarts:
  "emitted (elapse 100 (update 500 (Some ''a'') (elapse 200 (mount 300 (Some ''a''))))) = [] \<and>
   emitted (elapse 500 (update 500 (Some ''a'') (elapse 200 (mount 300 (Some ''a''))))) = [''a'']"
  by (simp add: mount_def effect_def elapse_def update_def cleanup_def)

text \<open>
  C9. The debouncer is trailing-edge. Take a burst of input updates with one delay,
  the first one a change of a dependency of the effect, each later one a change of the
  value, and each less than the delay after the one before it. During the burst
  \<^verbatim>\<open>setDebouncedValue\<close> is not called and the debounced value that the hook returns
  stays as it was: every pending timeout is cleared by the next update. After the
  burst, as long as less than the delay has passed since the last update, the same
  holds; once the whole delay has passed, the one call made is for the final value,
  which is then the debounced value. If the final value is \<^verbatim>\<open>undefined\<close>, no call is
  made at all and the debounced value stays as it was.
\<close>

theorem debounce_trailing_edge:
  assumes "pending_ok st"
    and "v \<noteq> dvalue st \<or> delay \<noteq> ddelay st"
    and "\<forall>(g, w)\<in>set us. g < delay"
    and "changing v us"
  shows "emitted (burst delay us (update delay v st)) = emitted st \<and>
         debouncedValue (burst delay us (update delay v st)) = debouncedValue st \<and>
         emitted (elapse t (burst delay us (update delay v st))) =
           emitted st @ (if delay \<le> t
                         then (case final_value v us of None \<Rightarrow> [] | Some x \<Rightarrow> [x])
                         else []) \<and>
         debouncedValue (elapse t (burst delay us (update delay v st))) =
           (if delay \<le> t
            then (case final_value v us of None \<Rightarrow> debouncedValue st | Some x \<Rightarrow> Some x)
            else debouncedValue st)"
proof -
  have f: "fresh delay v (emitted st) (debouncedValue st) (update delay v st)"
    using assms(1,2) by (rule update_fresh)
  have b: "fresh delay (final_value v us) (emitted st) (debouncedValue st)
      (burst delay us (update delay v st))"
    using f assms(3,4) by (rule burst_fresh)
  show ?thesis
    using b elapse_fresh [OF b, of t] by (simp add: fresh_def)
qed

theorem debounce_trailing_edge_witness:
  "pending_ok (elapse 1000 (mount 300 (Some ''''))) \<and>
   Some ''f'' \<noteq> dvalue (elapse 1000 (mount 300 (Some ''''))) \<and>
   (100::nat) < 300 \<and> (250::nat) < 300 \<and>
   changing (Some ''f'') [(100, Some ''fi''), (250, Some ''fid'')] \<and>
   emitted (elapse 1000 (mount 300 (Some ''''))) = [''''] \<and>
   debouncedValue (elapse 299 (burst 300 [(100, Some ''fi''), (250, Some ''fid'')]
      (update 300 (Some ''f'') (elapse 1000 (mount 300 (Some '''')))))) = Some '''' \<and>
   emitted (elapse 299 (burst 300 [(100, Some ''fi''), (250, Some ''fid'')]
      (update 300 (Some ''f'') (elapse 1000 (mount 300 (Some '''')))))) = [''''] \<and>
   debouncedValue (elapse 300 (burst 300 [(100, Some ''fi''), (250, Some ''fid'')]
      (update 300 (Some ''f'') (elapse 1000 (mount 300 (Some '''')))))) = Some ''fid'' \<and>
   emitted (elapse 300 (burst 300 [(100, Some ''fi''), (250, Some ''fid'')]
      (update 300 (Some ''f'') (elapse 1000 (mount 300 (Some '''')))))) = ['''', ''fid'']"
proof -
  have a: "pending_ok (elapse 1000 (mount 300 (Some '''')))"
    by (rule elapse_pending_ok) (rule mount_pending_ok)
  have b: "Some ''f'' \<noteq> dvalue (elapse 1000 (mount 300 (Some ''''))) \<or>
      (300::nat) \<noteq> ddelay (elapse 1000 (mount 300 (Some '''')))"
    by (simp add: typing_state)
  have c: "\<forall>(g, w)\<in>set [(100, Some ''fi''), (250, Some ''fid'')]. g < (300::nat)"
    by simp
  have d: "changing (Some ''f'') [(100, Some ''fi''), (250, Some ''fid'')]"
    by simp
  show ?thesis
    using a d debounce_trailing_edge [OF a b c d, of 300]
      debounce_trailing_edge [OF a b c d, of 299]
    by (simp add: typing_state final_value_def)
qed

end
